theory Spec2Isabelle
  imports Complex_Main "HOL-Library.Log_Nat"
begin

section \<open>Logistic classification utilities (utility_functions.py)\<close>

text \<open>
  The functions of \<^verbatim>\<open>utility_functions.py\<close> as HOL functions.

  \<^item> A Python exception is a value of \<open>error\<close>; a function that can raise returns
    \<open>error + 'a\<close> with \<open>Inl\<close> for the exception.
  \<^item> A Python \<open>int\<close> is an \<open>int\<close> (a count is a \<open>nat\<close>).
  \<^item> A one-dimensional numpy array, or a column array of shape \<open>(k, 1)\<close> as the pipeline
    passes for labels and weights, is a list of its entries.
  \<^item> A float64 entry is a \<open>real\<close>: rounding and overflow of the arithmetic are
    idealised, except in \<open>load_data\<close>, where the rounding of two operations decides an
    integer row count, and in \<open>eval_hypothesis_function_multivariate_float64\<close>, which
    rounds the logistic expression. numpy's division by zero, which yields a
    non-finite entry (\<open>inf\<close>, \<open>-inf\<close> or \<open>nan\<close>) and a warning, is the value
    \<open>NonFinite\<close> of \<open>npfloat\<close>; Python's own division by zero raises.
\<close>

datatype error = IndexError | ValueError | TypeError | ZeroDivisionError | OverflowError
  | SystemExit

datatype npfloat = Finite real | NonFinite

text \<open>\<open>xs[i]\<close> for an index \<open>i \<ge> 0\<close>: out of range raises \<open>IndexError\<close>.\<close>

definition getitem :: "'a list \<Rightarrow> nat \<Rightarrow> error + 'a" where
  "getitem xs i = (if i < length xs then Inr (xs ! i) else Inl IndexError)"

text \<open>Sequencing: an exception raised by the first computation ends the whole.\<close>

definition and_then :: "error + 'a \<Rightarrow> ('a \<Rightarrow> error + 'b) \<Rightarrow> error + 'b" where
  "and_then r f = (case r of Inl e \<Rightarrow> Inl e | Inr v \<Rightarrow> f v)"

subsection \<open>get_confusion_matrix\<close>

text \<open>
  \<open>predictions[i] == a and y[i] == b\<close>: Python's \<open>and\<close> evaluates \<open>y[i]\<close> only when
  the left comparison is true.
\<close>

definition both_equal :: "real list \<Rightarrow> real list \<Rightarrow> nat \<Rightarrow> real \<Rightarrow> real \<Rightarrow> error + bool" where
  "both_equal predictions y i a b =
     (case getitem predictions i of
        Inl e \<Rightarrow> Inl e
      | Inr p \<Rightarrow>
          if p = a then (case getitem y i of Inl e \<Rightarrow> Inl e | Inr v \<Rightarrow> Inr (v = b))
          else Inr False)"

text \<open>\<open>matrix[k] += 1\<close> on the four-entry list.\<close>

definition increment :: "nat list \<Rightarrow> nat \<Rightarrow> nat list" where
  "increment matrix k = matrix[k := matrix ! k + 1]"

text \<open>The body of the loop: the \<open>if\<close>/\<open>elif\<close> chain at index \<open>i\<close>.\<close>

definition confusion_step :: "real list \<Rightarrow> real list \<Rightarrow> nat \<Rightarrow> nat list \<Rightarrow> error + nat list" where
  "confusion_step predictions y i matrix =
     and_then (both_equal predictions y i 1 1) (\<lambda>true_positive.
       if true_positive then Inr (increment matrix 0) else
     and_then (both_equal predictions y i 0 0) (\<lambda>true_negative.
       if true_negative then Inr (increment matrix 1) else
     and_then (both_equal predictions y i 1 0) (\<lambda>false_positive.
       if false_positive then Inr (increment matrix 2) else
     and_then (both_equal predictions y i 0 1) (\<lambda>false_negative.
       if false_negative then Inr (increment matrix 3) else Inr matrix))))"

text \<open>\<open>for i in range(len(predictions))\<close>, over the indices still to visit.\<close>

fun confusion_loop :: "real list \<Rightarrow> real list \<Rightarrow> nat list \<Rightarrow> nat list \<Rightarrow> error + nat list" where
  "confusion_loop predictions y [] matrix = Inr matrix"
| "confusion_loop predictions y (i # is) matrix =
     (case confusion_step predictions y i matrix of
        Inl e \<Rightarrow> Inl e
      | Inr matrix' \<Rightarrow> confusion_loop predictions y is matrix')"

definition get_confusion_matrix :: "real list \<Rightarrow> real list \<Rightarrow> error + nat list" where
  "get_confusion_matrix predictions y =
     confusion_loop predictions y [0 ..< length predictions] [0, 0, 0, 0]"

subsection \<open>print_performance_metrics\<close>

text \<open>
  The five values the function prints. \<open>m\<close> holds Python ints (the counts made by
  \<open>get_confusion_matrix\<close>), so \<open>/\<close> is Python's true division: it raises
  \<open>ZeroDivisionError\<close> on a zero divisor, for ints and for floats alike.
\<close>

record metrics =
  accuracy :: real
  precision :: real
  recall :: real
  specificity :: real
  f1 :: real

definition true_divide :: "real \<Rightarrow> real \<Rightarrow> error + real" where
  "true_divide a b = (if b = 0 then Inl ZeroDivisionError else Inr (a / b))"

definition print_performance_metrics :: "nat list \<Rightarrow> error + metrics" where
  "print_performance_metrics m =
     and_then (getitem m 0) (\<lambda>m0.
     and_then (getitem m 1) (\<lambda>m1.
     and_then (getitem m 2) (\<lambda>m2.
     and_then (getitem m 3) (\<lambda>m3.
     and_then (true_divide (real (m0 + m1)) (real (m0 + m1 + m2 + m3))) (\<lambda>acc.
     and_then (true_divide (real m0) (real (m0 + m2))) (\<lambda>prec.
     and_then (true_divide (real m0) (real (m0 + m3))) (\<lambda>rec.
     and_then (true_divide (real m1) (real (m1 + m2))) (\<lambda>spec.
     and_then (true_divide (prec * rec) (prec + rec)) (\<lambda>q.
       Inr \<lparr>accuracy = acc, precision = prec, recall = rec,
            specificity = spec, f1 = 2 * q\<rparr>)))))))))"

subsection \<open>Arrays\<close>

text \<open>
  A two-dimensional numpy array of shape \<open>(length (rows A), ncols A)\<close>. The column
  count is kept beside the rows since an array with no rows still has one. Every row of
  an array has \<open>ncols A\<close> entries (\<open>is_matrix\<close>).
\<close>

record 'a matrix =
  ncols :: nat
  rows :: "'a list list"

definition is_matrix :: "'a matrix \<Rightarrow> bool" where
  "is_matrix A \<longleftrightarrow> (\<forall>r \<in> set (rows A). length r = ncols A)"

definition column :: "'a matrix \<Rightarrow> nat \<Rightarrow> 'a list" where
  "column A j = map (\<lambda>r. r ! j) (rows A)"

text \<open>\<open>A.T\<close>\<close>

definition transpose_matrix :: "'a matrix \<Rightarrow> 'a matrix" where
  "transpose_matrix A = \<lparr>ncols = length (rows A), rows = map (column A) [0 ..< ncols A]\<rparr>"


definition dot :: "real list \<Rightarrow> real list \<Rightarrow> real" where
  "dot r v = sum_list (map2 (*) r v)"

text \<open>\<open>np.matmul(A, v)\<close> of a matrix and a vector; the shapes must agree.\<close>

definition matmul :: "real matrix \<Rightarrow> real list \<Rightarrow> error + real list" where
  "matmul A v = (if ncols A = length v then Inr (map (\<lambda>r. dot r v) (rows A)) else Inl ValueError)"

text \<open>
  \<open>np.subtract(a, b)\<close> of two vectors: elementwise; a vector with a single entry is
  broadcast against the other; other shapes do not match.
\<close>

definition np_subtract :: "real list \<Rightarrow> real list \<Rightarrow> error + real list" where
  "np_subtract a b =
     (if length a = length b then Inr (map2 (-) a b)
      else if length a = 1 then Inr (map (\<lambda>v. hd a - v) b)
      else if length b = 1 then Inr (map (\<lambda>u. u - hd b) a)
      else Inl ValueError)"

text \<open>numpy's division of floats: a zero divisor gives \<open>inf\<close>, \<open>-inf\<close> or \<open>nan\<close>.\<close>

definition np_divide :: "real \<Rightarrow> real \<Rightarrow> npfloat" where
  "np_divide a b = (if b = 0 then NonFinite else Finite (a / b))"

text \<open>A loop that builds a list and stops at the first exception.\<close>

fun for_each :: "('a \<Rightarrow> error + 'b) \<Rightarrow> 'a list \<Rightarrow> error + 'b list" where
  "for_each f [] = Inr []"
| "for_each f (x # xs) = and_then (f x) (\<lambda>v. and_then (for_each f xs) (\<lambda>vs. Inr (v # vs)))"

subsection \<open>scale_data\<close>

text \<open>\<open>np.mean(data, axis=0)\<close> and \<open>np.std(data, axis=0)\<close>: the mean and the population
  standard deviation of each column, over all rows.\<close>

definition average :: "real list \<Rightarrow> real" where
  "average xs = sum_list xs / real (length xs)"

definition deviation :: "real list \<Rightarrow> real" where
  "deviation xs = sqrt (average (map (\<lambda>v. (v - average xs)\<^sup>2) xs))"

definition np_mean :: "real matrix \<Rightarrow> real list" where
  "np_mean data = map (\<lambda>j. average (column data j)) [0 ..< ncols data]"

definition np_std :: "real matrix \<Rightarrow> real list" where
  "np_std data = map (\<lambda>j. deviation (column data j)) [0 ..< ncols data]"

text \<open>
  The optional arguments \<open>mean\<close> and \<open>std\<close>: \<open>Some v\<close> is an \<open>ndarray\<close>, \<open>None\<close>
  anything else (the default is the int \<open>0\<close>), which cannot be subscripted.
\<close>

definition subscript :: "real list option \<Rightarrow> nat \<Rightarrow> error + real" where
  "subscript a j = (case a of None \<Rightarrow> Inl TypeError | Some v \<Rightarrow> getitem v j)"

text \<open>
  The inner loop \<open>for j in range(0, n_columns)\<close> with
  \<open>(data[i][j] - mean[j]) / std[j]\<close>, and the outer loop over the rows. The two
  branches of the source hold the same pair of loops.
\<close>

definition scale_row :: "real list \<Rightarrow> nat \<Rightarrow> real list option \<Rightarrow> real list option \<Rightarrow> error + npfloat list" where
  "scale_row row n_columns mean std =
     for_each (\<lambda>j.
       and_then (getitem row j) (\<lambda>v.
       and_then (subscript mean j) (\<lambda>m.
       and_then (subscript std j) (\<lambda>s.
         Inr (np_divide (v - m) s))))) [0 ..< n_columns]"

definition scale_rows :: "real matrix \<Rightarrow> nat \<Rightarrow> real list option \<Rightarrow> real list option \<Rightarrow> error + npfloat list list" where
  "scale_rows data n_columns mean std =
     for_each (\<lambda>row. scale_row row n_columns mean std) (rows data)"

datatype scaled =
    Fitted "npfloat matrix" "real list" "real list"
  | Transformed "npfloat matrix"

text \<open>\<open>flag\<close> only selects printing.\<close>

definition scale_data :: "real matrix \<Rightarrow> bool \<Rightarrow> real list option \<Rightarrow> real list option \<Rightarrow> error + scaled" where
  "scale_data data flag mean std =
     and_then (getitem (rows data) 0) (\<lambda>first.
       let n_columns = length first in
       if mean = None \<and> std = None then
         (let mean = np_mean data; std = np_std data in
          and_then (scale_rows data n_columns (Some mean) (Some std)) (\<lambda>scaled_data.
            Inr (Fitted \<lparr>ncols = n_columns, rows = scaled_data\<rparr> mean std)))
       else
         and_then (scale_rows data n_columns mean std) (\<lambda>scaled_data.
           Inr (Transformed \<lparr>ncols = n_columns, rows = scaled_data\<rparr>)))"

subsection \<open>The hypothesis, the gradient and its norm\<close>

text \<open>\<open>x\<close> holds one row per weight and one column per example.\<close>

definition eval_hypothesis_function_multivariate :: "real list \<Rightarrow> real matrix \<Rightarrow> error + real list" where
  "eval_hypothesis_function_multivariate w x =
     and_then (matmul (transpose_matrix x) w) (\<lambda>z.
       Inr (map (\<lambda>v. 1 / (1 + exp (v * - 1))) z))"

definition compute_gradient_of_cost_function_multivariate ::
  "real list \<Rightarrow> real matrix \<Rightarrow> real list \<Rightarrow> int \<Rightarrow> error + npfloat list" where
  "compute_gradient_of_cost_function_multivariate hypothesis x y n =
     and_then (np_subtract hypothesis y) (\<lambda>error.
     and_then (matmul x error) (\<lambda>product.
       Inr (map (\<lambda>v. np_divide v (of_int n)) product)))"


subsection \<open>gradient_descent\<close>






subsection \<open>predict\<close>


subsection \<open>Runs of the loop\<close>




subsection \<open>load_data\<close>

text \<open>
  Python's float is the IEEE 754 binary64 format: the result of an arithmetic operation
  is the exact result rounded to the nearest number \<open>m * 2 ^ e\<close> with an integer
  \<open>\<bar>m\<bar> < 2 ^ 53\<close> and \<open>e \<ge> -1074\<close>, ties going to the even \<open>m\<close>.
\<close>

definition two_power :: "int \<Rightarrow> real" where
  "two_power k = (if 0 \<le> k then 2 ^ nat k else 1 / 2 ^ nat (- k))"

text \<open>The exponent \<open>e\<close> with \<open>2 ^ e \<le> \<bar>x\<bar> < 2 ^ (e + 1)\<close>, for \<open>x\<close> other than 0.\<close>

definition binary_exponent :: "real \<Rightarrow> int" where
  "binary_exponent x =
     (if 1 \<le> \<bar>x\<bar> then bitlen \<lfloor>\<bar>x\<bar>\<rfloor> - 1 else - bitlen (\<lceil>1 / \<bar>x\<bar>\<rceil> - 1))"

definition round_half_even :: "real \<Rightarrow> int" where
  "round_half_even x =
     (if x - of_int \<lfloor>x\<rfloor> < 1 / 2 then \<lfloor>x\<rfloor>
      else if x - of_int \<lfloor>x\<rfloor> > 1 / 2 then \<lfloor>x\<rfloor> + 1
      else if even \<lfloor>x\<rfloor> then \<lfloor>x\<rfloor> else \<lfloor>x\<rfloor> + 1)"

text \<open>
  The spacing of the binary64 numbers around \<open>x\<close>; below \<open>2 ^ -1022\<close> (the subnormal
  numbers) it stays \<open>2 ^ -1074\<close>.
\<close>

definition unit_in_last_place :: "real \<Rightarrow> real" where
  "unit_in_last_place x = two_power (max (binary_exponent x) (- 1022) - 52)"

text \<open>
  Rounding to binary64. A result of magnitude \<open>2 ^ 1024\<close> or more has no finite float:
  Python's int division and int-to-float conversion raise \<open>OverflowError\<close> there; a float
  product becomes \<open>inf\<close>, on which \<open>math.floor\<close> raises \<open>OverflowError\<close>.
\<close>

definition binary64 :: "real \<Rightarrow> error + real" where
  "binary64 x =
     (if x = 0 then Inr 0
      else
        let r = of_int (round_half_even (x / unit_in_last_place x)) * unit_in_last_place x
        in if 2 ^ 1024 \<le> \<bar>r\<bar> then Inl OverflowError else Inr r)"

text \<open>\<open>math.floor(len(data) * (split / 100))\<close> for \<open>n = len(data)\<close> and an int \<open>split\<close>.\<close>

definition splitting_point :: "nat \<Rightarrow> int \<Rightarrow> error + int" where
  "splitting_point n split =
     and_then (binary64 (of_int split / 100)) (\<lambda>fraction.
     and_then (binary64 (real n)) (\<lambda>rows_as_float.
     and_then (binary64 (rows_as_float * fraction)) (\<lambda>product.
       Inr \<lfloor>product\<rfloor>)))"

text \<open>
  Slices: the position at which \<open>xs[:k]\<close> ends and \<open>xs[k:]\<close> begins in a sequence of
  length \<open>l\<close>; a negative \<open>k\<close> counts from the end.
\<close>

definition slice_position :: "nat \<Rightarrow> int \<Rightarrow> nat" where
  "slice_position l k = (if k < 0 then nat (max 0 (int l + k)) else min l (nat k))"

text \<open>\<open>data[:r, :c]\<close>, \<open>data[:r, c:]\<close>, \<open>data[r:, :c]\<close> and \<open>data[r:, c:]\<close>\<close>

definition upper_left :: "'a matrix \<Rightarrow> int \<Rightarrow> int \<Rightarrow> 'a matrix" where
  "upper_left data r c =
     \<lparr>ncols = slice_position (ncols data) c,
      rows = map (take (slice_position (ncols data) c))
               (take (slice_position (length (rows data)) r) (rows data))\<rparr>"

definition upper_right :: "'a matrix \<Rightarrow> int \<Rightarrow> int \<Rightarrow> 'a matrix" where
  "upper_right data r c =
     \<lparr>ncols = ncols data - slice_position (ncols data) c,
      rows = map (drop (slice_position (ncols data) c))
               (take (slice_position (length (rows data)) r) (rows data))\<rparr>"

definition lower_left :: "'a matrix \<Rightarrow> int \<Rightarrow> int \<Rightarrow> 'a matrix" where
  "lower_left data r c =
     \<lparr>ncols = slice_position (ncols data) c,
      rows = map (take (slice_position (ncols data) c))
               (drop (slice_position (length (rows data)) r) (rows data))\<rparr>"

definition lower_right :: "'a matrix \<Rightarrow> int \<Rightarrow> int \<Rightarrow> 'a matrix" where
  "lower_right data r c =
     \<lparr>ncols = ncols data - slice_position (ncols data) c,
      rows = map (drop (slice_position (ncols data) c))
               (drop (slice_position (length (rows data)) r) (rows data))\<rparr>"

datatype loaded =
    TrainTest "real matrix" "real matrix" "real matrix" "real matrix"
  | Whole "real matrix"

text \<open>
  \<open>file\<close> stands for what \<open>np.genfromtxt\<close> reads: \<open>None\<close> when reading raises (the
  function then calls \<open>sys.exit\<close>), else the header row and the data rows, the latter in
  the order in which \<open>np.random.shuffle\<close> leaves them. With \<open>flag\<close> set the function
  prints \<open>x_training_data[i]\<close> for every \<open>i\<close> in \<open>range(len(data))\<close>, which runs
  past the training rows when there are fewer of them.
\<close>

definition load_data :: "('h list \<times> real matrix) option \<Rightarrow> bool \<Rightarrow> int \<Rightarrow> bool \<Rightarrow> error + loaded" where
  "load_data file includes_y split flag =
     (case file of
        None \<Rightarrow> Inl SystemExit
      | Some (headers, data) \<Rightarrow>
          if includes_y then
            (let number_x_columns = int (length headers) - 1 in
             and_then (splitting_point (length (rows data)) split) (\<lambda>splitting_point.
               let x_training_data = upper_left data splitting_point number_x_columns;
                   y_training_data = upper_right data splitting_point number_x_columns;
                   x_testing_data = lower_left data splitting_point number_x_columns;
                   y_testing_data = lower_right data splitting_point number_x_columns
               in if flag \<and> length (rows x_training_data) < length (rows data)
                  then Inl IndexError
                  else Inr (TrainTest x_training_data y_training_data
                              x_testing_data y_testing_data)))
          else Inr (Whole data))"

text \<open>The numbers of training rows and of testing rows that \<open>load_data\<close> returns.\<close>

fun row_counts :: "loaded \<Rightarrow> nat \<times> nat" where
  "row_counts (TrainTest x_training_data y_training_data x_testing_data y_testing_data) =
     (length (rows x_training_data), length (rows x_testing_data))"
| "row_counts (Whole data) = (length (rows data), 0)"

subsection \<open>The hypothesis in float64\<close>

text \<open>
  \<open>np.exp\<close> in float64, taken as the exponential rounded to binary64; \<open>None\<close> is the
  result \<open>inf\<close> of an overflow.
\<close>

definition np_exp :: "real \<Rightarrow> real option" where
  "np_exp z = (case binary64 (exp z) of Inl e \<Rightarrow> None | Inr v \<Rightarrow> Some v)"

text \<open>
  One entry of \<open>1 / (1 + np.exp(z * -1))\<close> with each operation rounded to binary64, for a
  finite entry \<open>z\<close> of the product \<open>np.matmul(x.T, w)\<close>. The sum with \<open>inf\<close> is
  \<open>inf\<close> and its reciprocal is 0.
\<close>

definition logistic_float64 :: "real \<Rightarrow> real" where
  "logistic_float64 z =
     (case np_exp (z * - 1) of
        None \<Rightarrow> 0
      | Some e \<Rightarrow>
          (case binary64 (1 + e) of
             Inl _ \<Rightarrow> 0
           | Inr d \<Rightarrow> (case binary64 (1 / d) of Inl _ \<Rightarrow> 0 | Inr p \<Rightarrow> p)))"

text \<open>
  The hypothesis with the rounding of the logistic expression; the product
  \<open>np.matmul(x.T, w)\<close> is still taken exact, its order of summation being numpy's own.
\<close>

definition eval_hypothesis_function_multivariate_float64 :: "real list \<Rightarrow> real matrix \<Rightarrow> error + real list" where
  "eval_hypothesis_function_multivariate_float64 w x =
     and_then (matmul (transpose_matrix x) w) (\<lambda>z. Inr (map logistic_float64 z))"


section \<open>Properties\<close>

subsection \<open>Splitting the data\<close>

text \<open>Rounding at work: one tenth is not a binary64 number, and ties go to the even neighbour.\<close>

lemma binary64_tenth: "binary64 (1 / 10) = Inr (3602879701896397 / 36028797018963968)"
  by code_simp

lemma binary64_ties_to_even:
  "binary64 (2 ^ 53 + 1) = Inr (2 ^ 53)" "binary64 (2 ^ 53 + 3) = Inr (2 ^ 53 + 4)"
  by code_simp+

lemma splitting_point_exact: "splitting_point 100 80 = Inr 80"
  by code_simp

lemma slice_position_le: "slice_position l k \<le> l"
  unfolding slice_position_def by (cases "k < 0") auto

text \<open>Whatever the splitting point, the training and the testing rows are all the rows.\<close>

lemma load_data_partitions_rows:
  assumes "load_data (Some (headers, data)) True split flag = Inr r"
  shows "fst (row_counts r) + snd (row_counts r) = length (rows data)"
  using assms slice_position_le [of "length (rows data)"]
  by (auto simp add: load_data_def and_then_def Let_def upper_left_def lower_left_def
      split: sum.splits if_splits)

text \<open>
  Claim C4 fails on the code. For 100 rows and \<open>split = 29\<close> the claim gives
  \<open>floor(100 * 29 / 100) = 29\<close> training rows and 71 testing rows. The code divides
  first: \<open>29 / 100\<close> rounds to the float \<open>5224175567749775 / 2 ^ 54\<close>, below
  \<open>0.29\<close>; its product with 100 rounds to \<open>28.999999999999996\<close>, and
  \<open>math.floor\<close> makes 28 of it: 28 training rows and 72 testing rows.
\<close>

theorem load_data_split_short_of_floor:
  "map_sum id row_counts
     (load_data (Some ([''x'', ''y''], \<lparr>ncols = 2, rows = replicate 100 [1, 0]\<rparr>)) True 29 False)
   = Inr (28, 72)"
  by code_simp

subsection \<open>Scaling\<close>

lemma for_each_total:
  assumes "\<forall>x\<in>set xs. f x = Inr (g x)"
  shows "for_each f xs = Inr (map g xs)"
  using assms by (induction xs) (simp_all add: and_then_def)

lemma scale_row_explicit:
  assumes "n \<le> length row" "n \<le> length m" "n \<le> length s"
  shows "scale_row row n (Some m) (Some s) =
     Inr (map (\<lambda>j. np_divide (row ! j - m ! j) (s ! j)) [0 ..< n])"
  unfolding scale_row_def
  by (rule for_each_total) (use assms in \<open>simp add: and_then_def getitem_def subscript_def\<close>)

lemma scale_rows_explicit:
  assumes "\<forall>r\<in>set (rows data). n \<le> length r" "n \<le> length m" "n \<le> length s"
  shows "scale_rows data n (Some m) (Some s) =
     Inr (map (\<lambda>r. map (\<lambda>j. np_divide (r ! j - m ! j) (s ! j)) [0 ..< n]) (rows data))"
  unfolding scale_rows_def
  by (rule for_each_total) (use assms in \<open>simp add: scale_row_explicit\<close>)

text \<open>
  Claim C5. When \<open>scale_data\<close> without \<open>mean\<close> and \<open>std\<close> returns the scaled
  matrix with its mean and standard deviation, \<open>scale_data\<close> on the same matrix with that
  mean and standard deviation returns the same scaled matrix. With \<open>mean\<close> and \<open>std\<close>
  given, every entry of the result is the entry of the argument minus the given
  \<open>mean[j]\<close>, over the given \<open>std[j]\<close>: no statistic of the argument enters.
\<close>

theorem transform_reproduces_fit_transform:
  "(scale_data data flag None None = Inr (Fitted scaled m s) \<longrightarrow>
      scale_data data flag' (Some m) (Some s) = Inr (Transformed scaled)) \<and>
   (is_matrix data \<and> rows data \<noteq> [] \<and> ncols data \<le> length m \<and> ncols data \<le> length s \<longrightarrow>
      scale_data data flag (Some m) (Some s) =
        Inr (Transformed \<lparr>ncols = ncols data,
               rows = map (\<lambda>r. map (\<lambda>j. np_divide (r ! j - m ! j) (s ! j)) [0 ..< ncols data]) (rows data)\<rparr>))"
proof (intro conjI impI)
  assume "scale_data data flag None None = Inr (Fitted scaled m s)"
  then show "scale_data data flag' (Some m) (Some s) = Inr (Transformed scaled)"
    by (auto simp add: scale_data_def and_then_def Let_def split: sum.splits)
next
  assume a: "is_matrix data \<and> rows data \<noteq> [] \<and> ncols data \<le> length m \<and> ncols data \<le> length s"
  then have f: "getitem (rows data) 0 = Inr (hd (rows data))" and l: "length (hd (rows data)) = ncols data"
    by (auto simp add: getitem_def hd_conv_nth is_matrix_def)
  have "\<forall>r\<in>set (rows data). ncols data \<le> length r" using a by (simp add: is_matrix_def)
  from scale_rows_explicit [OF this, of m s] a f l
  show "scale_data data flag (Some m) (Some s) =
        Inr (Transformed \<lparr>ncols = ncols data,
               rows = map (\<lambda>r. map (\<lambda>j. np_divide (r ! j - m ! j) (s ! j)) [0 ..< ncols data]) (rows data)\<rparr>)"
    by (simp add: scale_data_def and_then_def Let_def)
qed

theorem transform_reproduces_fit_transform_witness:
  "scale_data \<lparr>ncols = 1, rows = [[1], [3]]\<rparr> False None None =
     Inr (Fitted \<lparr>ncols = 1, rows = [[Finite (- 1)], [Finite 1]]\<rparr> [2] [1]) \<and>
   scale_data \<lparr>ncols = 1, rows = [[1], [3]]\<rparr> False (Some [2]) (Some [1]) =
     Inr (Transformed \<lparr>ncols = 1, rows = [[Finite (- 1)], [Finite 1]]\<rparr>)"
proof -
  let ?d = "\<lparr>ncols = 1, rows = [[1], [3]]\<rparr> :: real matrix"
  have f: "scale_data ?d False None None =
     Inr (Fitted \<lparr>ncols = 1, rows = [[Finite (- 1)], [Finite 1]]\<rparr> [2] [1])"
    by (simp add: scale_data_def and_then_def getitem_def np_mean_def np_std_def column_def
        average_def deviation_def scale_rows_def scale_row_def subscript_def np_divide_def)
  from f transform_reproduces_fit_transform [of ?d False "\<lparr>ncols = 1, rows = [[Finite (- 1)], [Finite 1]]\<rparr>" "[2]" "[1]" False]
  show ?thesis by simp
qed









subsection \<open>The range of the hypothesis\<close>

lemma two_power_pos: "0 < two_power k"
  by (simp add: two_power_def)

lemma two_power_neg: "k \<le> 0 \<Longrightarrow> two_power k = 1 / 2 ^ nat (- k)"
  by (auto simp add: two_power_def)

lemma unit_in_last_place_pos: "0 < unit_in_last_place x"
  by (simp add: unit_in_last_place_def two_power_pos)

lemma round_half_even_ge:
  assumes "of_int n \<le> t"
  shows "n \<le> round_half_even t"
proof -
  from assms have "n \<le> \<lfloor>t\<rfloor>" by (simp add: le_floor_iff)
  then show ?thesis by (simp add: round_half_even_def)
qed

lemma round_half_even_le:
  assumes "t \<le> of_int n"
  shows "round_half_even t \<le> n"
proof (cases "t = of_int n")
  case True
  then show ?thesis by (simp add: round_half_even_def)
next
  case False
  with assms have "t < of_int n" by simp
  then have "\<lfloor>t\<rfloor> < n" by (simp add: floor_less_iff)
  then show ?thesis by (simp add: round_half_even_def)
qed

lemma round_half_even_int: "round_half_even (of_int n) = n"
  by (simp add: round_half_even_def)

lemma bitlen_gt:
  assumes "2 ^ n \<le> m"
  shows "int n < bitlen m"
proof -
  from assms have m: "0 < m" by (smt (verit) zero_less_power)
  from bitlen_bounds [OF m] assms have "(2::int) ^ n < 2 ^ nat (bitlen m)" by linarith
  then have "n < nat (bitlen m)" by (simp add: power_strict_increasing_iff)
  then show ?thesis by linarith
qed

lemma binary_exponent_le:
  assumes "0 < y" "y \<le> 1 / 2 ^ n"
  shows "binary_exponent y \<le> - int n"
proof (cases "y = 1")
  case True
  with assms(2) have "(2::real) ^ n \<le> 1" by (simp add: field_simps)
  have n: "n = 0"
  proof (rule ccontr)
    assume "n \<noteq> 0"
    then have "(1::real) < 2 ^ n" by simp
    with \<open>(2::real) ^ n \<le> 1\<close> show False by linarith
  qed
  have "bitlen 1 = 1" by (simp add: compute_bitlen)
  with n show ?thesis using True by (simp add: binary_exponent_def)
next
  case False
  have "1 / (2::real) ^ n \<le> 1" by (simp add: field_simps)
  with assms False have y1: "y < 1" by linarith
  let ?m = "\<lceil>1 / y\<rceil> - 1"
  have e: "binary_exponent y = - bitlen ?m" using assms(1) y1 by (simp add: binary_exponent_def)
  show ?thesis
  proof (cases n)
    case 0
    then show ?thesis using e bitlen_nonneg [of ?m] by simp
  next
    case (Suc n')
    from assms have "2 ^ n \<le> 1 / y" by (simp add: field_simps)
    then have "of_int (2 ^ n) \<le> 1 / y" by simp
    then have "2 ^ n \<le> \<lceil>1 / y\<rceil>" by (meson ceiling_mono ceiling_of_int order_trans le_of_int_ceiling of_int_le_iff)
    then have "2 ^ n - 1 \<le> ?m" by simp
    moreover have "(2::int) ^ n' \<le> 2 ^ n - 1" using Suc by simp
    ultimately have "2 ^ n' \<le> ?m" by linarith
    from bitlen_gt [OF this] Suc e show ?thesis by simp
  qed
qed

lemma binary64_le_dyadic:
  assumes "n \<le> 1074" "0 < y" "y \<le> 1 / 2 ^ n"
  shows "\<exists>p. binary64 y = Inr p \<and> 0 \<le> p \<and> p \<le> 1 / 2 ^ n"
proof -
  let ?k = "max (binary_exponent y) (- 1022) - 52"
  from binary_exponent_le [OF assms(2,3)] assms(1) have k: "?k \<le> - int n" by simp
  define j where "j = nat (- ?k)"
  from k have jn: "n \<le> j" by (simp add: j_def)
  from k have u: "unit_in_last_place y = 1 / 2 ^ j"
    unfolding unit_in_last_place_def j_def by (intro two_power_neg) simp
  define d where "d = j - n"
  have jd: "j = n + d" using jn by (simp add: d_def)
  define t where "t = y / unit_in_last_place y"
  have t: "t = y * 2 ^ j" by (simp add: t_def u)
  have "y * 2 ^ j \<le> (1 / 2 ^ n) * 2 ^ j" using assms(3) by (intro mult_right_mono) simp_all
  also have "(1 / 2 ^ n) * (2::real) ^ j = 2 ^ d" by (simp add: jd power_add)
  finally have "t \<le> of_int (2 ^ d)" by (simp add: t)
  then have hi: "round_half_even t \<le> 2 ^ d" by (rule round_half_even_le)
  have "of_int 0 \<le> t" using assms(2) by (simp add: t)
  then have lo: "0 \<le> round_half_even t" by (rule round_half_even_ge)
  define p where "p = of_int (round_half_even t) * unit_in_last_place y"
  have p0: "0 \<le> p" using lo by (simp add: p_def u)
  have "of_int (round_half_even t) \<le> (of_int (2 ^ d) :: real)"
    using hi by (simp only: of_int_le_iff)
  then have "p \<le> of_int (2 ^ d) * (1 / 2 ^ j)"
    unfolding p_def u by (intro mult_right_mono) simp_all
  also have "of_int (2 ^ d) * (1 / 2 ^ j) = 1 / (2::real) ^ n"
    by (simp add: jd power_add)
  finally have p1: "p \<le> 1 / 2 ^ n" .
  have "1 / (2::real) ^ n \<le> 1" by (simp add: field_simps)
  with p0 p1 have "\<bar>p\<bar> \<le> 1" by linarith
  moreover have "(1::real) < 2 ^ 1024" by simp
  ultimately have "\<not> 2 ^ 1024 \<le> \<bar>p\<bar>" by linarith
  then have "binary64 y = Inr p"
    using assms(2) by (simp add: binary64_def Let_def p_def t_def)
  with p0 p1 show ?thesis by blast
qed

lemma binary64_nonneg:
  assumes "0 \<le> x" "binary64 x = Inr r"
  shows "0 \<le> r"
proof (cases "x = 0")
  case True
  with assms show ?thesis by (simp add: binary64_def)
next
  case False
  have "of_int 0 \<le> x / unit_in_last_place x"
    using assms(1) unit_in_last_place_pos [of x] by simp
  then have "0 \<le> round_half_even (x / unit_in_last_place x)" by (rule round_half_even_ge)
  then have "0 \<le> of_int (round_half_even (x / unit_in_last_place x)) * unit_in_last_place x"
    using unit_in_last_place_pos [of x] by simp
  with assms(2) False show ?thesis by (auto simp add: binary64_def Let_def split: if_splits)
qed

lemma binary64_ge_one:
  assumes "1 \<le> x" "binary64 x = Inr d"
  shows "1 \<le> d"
proof -
  let ?m = "\<lfloor>\<bar>x\<bar>\<rfloor>"
  have m1: "1 \<le> ?m" using assms(1) by (simp add: le_floor_iff)
  then have "2 ^ 0 \<le> ?m" by simp
  from bitlen_gt [OF this] have b: "1 \<le> bitlen ?m" by simp
  define e where "e = bitlen ?m - 1"
  have e0: "0 \<le> e" using b by (simp add: e_def)
  have be: "binary_exponent x = e" using assms(1) by (simp add: binary_exponent_def e_def)
  have u: "unit_in_last_place x = two_power (e - 52)"
    using e0 by (simp add: unit_in_last_place_def be max_def)
  define t where "t = x / unit_in_last_place x"
  have d: "d = of_int (round_half_even t) * unit_in_last_place x"
    using assms by (auto simp add: binary64_def Let_def t_def split: if_splits)
  show ?thesis
  proof (cases "e - 52 \<le> 0")
    case True
    define j where "j = nat (- (e - 52))"
    have uj: "unit_in_last_place x = 1 / 2 ^ j" unfolding u j_def by (rule two_power_neg [OF True])
    have "(1::real) * 2 ^ j \<le> x * 2 ^ j" using assms(1) by (intro mult_right_mono) simp_all
    then have "of_int (2 ^ j) \<le> t" by (simp add: t_def uj)
    then have "2 ^ j \<le> round_half_even t" by (rule round_half_even_ge)
    then have "(of_int (2 ^ j) :: real) \<le> of_int (round_half_even t)" by (simp only: of_int_le_iff)
    then have "of_int (2 ^ j) * (1 / 2 ^ j) \<le> d" unfolding d uj by (intro mult_right_mono) simp_all
    then show ?thesis by simp
  next
    case False
    then have k: "0 \<le> e - 52" by simp
    have uk: "unit_in_last_place x = 2 ^ nat (e - 52)" unfolding u using k by (simp add: two_power_def)
    have "0 < ?m" using m1 by simp
    from bitlen_bounds [OF this] have "2 ^ nat e \<le> ?m" by (simp add: e_def)
    then have "(2::real) ^ nat e \<le> of_int ?m" by (metis of_int_le_iff of_int_numeral of_int_power)
    also have "\<dots> \<le> x" using assms(1) by linarith
    finally have xe: "2 ^ nat e \<le> x" .
    have "(2::real) ^ nat (e - 52) \<le> 2 ^ nat e" by (intro power_increasing) (use k in simp_all)
    with xe have "unit_in_last_place x \<le> x" unfolding uk by linarith
    then have "of_int 1 \<le> t" using unit_in_last_place_pos [of x] by (simp add: t_def field_simps)
    then have "1 \<le> round_half_even t" by (rule round_half_even_ge)
    then have "(1::real) \<le> of_int (round_half_even t)" by simp
    moreover have "(1::real) \<le> unit_in_last_place x" by (simp add: uk)
    ultimately have "1 * 1 \<le> of_int (round_half_even t) * unit_in_last_place x"
      by (intro mult_mono) simp_all
    then show ?thesis by (simp add: d)
  qed
qed

lemma binary64_one_plus_tiny:
  assumes "0 \<le> r" "r < 1 / 2 ^ 53"
  shows "binary64 (1 + r) = Inr 1"
proof -
  have r1: "r < 1" using assms(2) by simp
  have f: "\<lfloor>\<bar>1 + r\<bar>\<rfloor> = 1" using assms(1) r1 by (simp add: floor_eq_iff)
  have "bitlen 1 = 1" by (simp add: compute_bitlen)
  then have be: "binary_exponent (1 + r) = 0" using assms(1) f by (simp add: binary_exponent_def)
  have u: "unit_in_last_place (1 + r) = 1 / 2 ^ 52"
    by (simp add: unit_in_last_place_def be two_power_def)
  define t where "t = (1 + r) / unit_in_last_place (1 + r)"
  have t: "t = 2 ^ 52 + r * 2 ^ 52" by (simp add: t_def u algebra_simps)
  have s: "0 \<le> r * 2 ^ 52" "r * 2 ^ 52 < 1 / 2" using assms by simp_all
  have fl: "\<lfloor>t\<rfloor> = 2 ^ 52" unfolding t using s by (simp add: floor_eq_iff)
  have "t - of_int \<lfloor>t\<rfloor> < 1 / 2" unfolding fl using s by (simp add: t)
  then have "round_half_even t = 2 ^ 52" by (simp add: round_half_even_def fl)
  then have rv: "of_int (round_half_even t) * unit_in_last_place (1 + r) = 1" by (simp add: u)
  have nz: "1 + r \<noteq> 0" using assms(1) by simp
  show ?thesis
    unfolding binary64_def Let_def t_def [symmetric] rv using nz by simp
qed

lemma exp_minus_100: "exp (- 100 :: real) \<le> 1 / 2 ^ 100"
proof -
  have "(2::real) \<le> exp 1" using exp_ge_add_one_self [of "1::real"] by simp
  then have "(2::real) ^ 100 \<le> exp 1 ^ 100" by (intro power_mono) simp_all
  also have "exp (1::real) ^ 100 = exp 100" using exp_of_nat_mult [of 100 "1::real"] by simp
  finally have "(2::real) ^ 100 \<le> exp 100" .
  then have "1 / exp (100::real) \<le> 1 / 2 ^ 100" by (intro divide_left_mono) simp_all
  then show ?thesis by (simp add: exp_minus inverse_eq_divide)
qed

lemma logistic_float64_range: "0 \<le> logistic_float64 z \<and> logistic_float64 z \<le> 1"
proof (cases "np_exp (z * - 1)")
  case None
  then show ?thesis by (simp add: logistic_float64_def)
next
  case (Some e)
  then have "binary64 (exp (z * - 1)) = Inr e" by (simp add: np_exp_def split: sum.splits)
  from binary64_nonneg [OF _ this] have e0: "0 \<le> e" by simp
  show ?thesis
  proof (cases "binary64 (1 + e)")
    case (Inl a)
    with Some show ?thesis by (simp add: logistic_float64_def)
  next
    case (Inr d)
    from e0 have "1 \<le> 1 + e" by simp
    from binary64_ge_one [OF this Inr] have d1: "1 \<le> d" .
    then have "0 < 1 / d" "1 / d \<le> 1 / 2 ^ 0" by simp_all
    from binary64_le_dyadic [OF _ this] obtain p where
      "binary64 (1 / d) = Inr p" "0 \<le> p" "p \<le> 1 / 2 ^ 0" by auto
    with Some Inr show ?thesis by (simp add: logistic_float64_def)
  qed
qed

lemma logistic_float64_100: "logistic_float64 100 = 1"
proof -
  have "0 < exp (- 100 :: real)" by simp
  from binary64_le_dyadic [OF _ this exp_minus_100] obtain p where
    p: "binary64 (exp (- 100)) = Inr p" "0 \<le> p" "p \<le> 1 / 2 ^ 100" by auto
  have "(1::real) / 2 ^ 100 < 1 / 2 ^ 53" by simp
  with p(3) have "p < 1 / 2 ^ 53" by linarith
  from binary64_one_plus_tiny [OF p(2) this] have s: "binary64 (1 + p) = Inr 1" .
  have q: "binary64 (1 / 1) = Inr 1" using binary64_one_plus_tiny [of 0] by simp
  show ?thesis using p(1) s q by (simp add: logistic_float64_def np_exp_def)
qed

lemma logistic_exact_range:
  fixes v :: real
  shows "0 < 1 / (1 + exp (v * - 1)) \<and> 1 / (1 + exp (v * - 1)) < 1"
proof -
  have "0 < exp (v * - 1)" by simp
  then show ?thesis by (simp add: add_pos_pos)
qed

text \<open>
  Claim C9, as amended. For a feature matrix with one row per weight, every entry of the
  hypothesis lies in the closed interval from 0 to 1 when the logistic expression is
  evaluated in float64 on a finite product \<open>weights \<cdot> features_i\<close>; it lies strictly
  between 0 and 1 in exact arithmetic.
\<close>

theorem hypothesis_within_unit_interval:
  assumes "length (rows x) = length w"
  shows "(\<exists>h. eval_hypothesis_function_multivariate_float64 w x = Inr h \<and>
            length h = ncols x \<and> (\<forall>v\<in>set h. 0 \<le> v \<and> v \<le> 1)) \<and>
         (\<exists>h. eval_hypothesis_function_multivariate w x = Inr h \<and>
            length h = ncols x \<and> (\<forall>v\<in>set h. 0 < v \<and> v < 1))"
proof -
  have m: "matmul (transpose_matrix x) w = Inr (map (\<lambda>r. dot r w) (rows (transpose_matrix x)))"
    using assms by (simp add: matmul_def transpose_matrix_def)
  have l: "length (rows (transpose_matrix x)) = ncols x" by (simp add: transpose_matrix_def)
  have a: "\<exists>h. eval_hypothesis_function_multivariate_float64 w x = Inr h \<and>
            length h = ncols x \<and> (\<forall>v\<in>set h. 0 \<le> v \<and> v \<le> 1)"
    using m l logistic_float64_range
    by (auto simp add: eval_hypothesis_function_multivariate_float64_def and_then_def)
  have b: "\<exists>h. eval_hypothesis_function_multivariate w x = Inr h \<and>
            length h = ncols x \<and> (\<forall>v\<in>set h. 0 < v \<and> v < 1)"
    using m l logistic_exact_range
    by (auto simp add: eval_hypothesis_function_multivariate_def and_then_def)
  show ?thesis using a b by (rule conjI)
qed

theorem hypothesis_within_unit_interval_witness:
  "\<exists>h. eval_hypothesis_function_multivariate_float64 [0, 3] \<lparr>ncols = 2, rows = [[1, 1], [2, 5]]\<rparr> = Inr h \<and>
       length h = 2 \<and> (\<forall>v\<in>set h. 0 \<le> v \<and> v \<le> 1)"
proof -
  have "length (rows \<lparr>ncols = 2, rows = [[1, 1], [2, 5 :: real]]\<rparr>) = length [0, 3 :: real]" by simp
  from hypothesis_within_unit_interval [OF this] show ?thesis by simp
qed

text \<open>
  The claim as stated fails: for the product \<open>weights \<cdot> features_i = 100\<close>,
  \<open>exp(-100)\<close> is below half the spacing of the floats at 1, the sum
  \<open>1 + exp(-100)\<close> rounds to 1, and the entry is exactly 1.
\<close>

theorem hypothesis_float64_reaches_one:
  "eval_hypothesis_function_multivariate_float64 [100] \<lparr>ncols = 1, rows = [[1]]\<rparr> = Inr [1]"
  by (simp add: eval_hypothesis_function_multivariate_float64_def and_then_def matmul_def
      transpose_matrix_def column_def dot_def logistic_float64_100)


subsection \<open>The gradient\<close>

lemma dot_sum_nth:
  assumes "length r = length v"
  shows "dot r v = (\<Sum>i<length v. r ! i * v ! i)"
  using assms
proof (induction r v rule: list_induct2)
  case Nil
  then show ?case by (simp add: dot_def)
next
  case (Cons a r b v)
  then show ?case by (simp add: dot_def sum.lessThan_Suc_shift del: sum.lessThan_Suc)
qed

lemma dot_zero: "\<forall>b\<in>set v. b = 0 \<Longrightarrow> dot r v = 0"
proof (induction v arbitrary: r)
  case Nil
  then show ?case by (simp add: dot_def)
next
  case (Cons b v)
  then show ?case by (cases r) (simp_all add: dot_def)
qed

lemma finite_np_divide: "n \<noteq> 0 \<Longrightarrow> np_divide v (of_int n) = Finite (v / of_int n)"
  by (simp add: np_divide_def)

text \<open>
  Claim C8, as amended. For a features matrix \<open>x\<close> with one column per example, a
  hypothesis vector and a label vector of that length, and an example count \<open>n\<close> other
  than 0, the gradient is \<open>x \<cdot> (hypothesis - y) / n\<close>, entry by entry; when the
  hypothesis equals the labels it is the zero vector.
\<close>

theorem gradient_formula:
  assumes "is_matrix x" "ncols x = length y" "length hypothesis = length y" "n \<noteq> 0"
  shows "compute_gradient_of_cost_function_multivariate hypothesis x y n =
           Inr (map (\<lambda>r. Finite ((\<Sum>i<length y. r ! i * (hypothesis ! i - y ! i)) / of_int n)) (rows x)) \<and>
         (hypothesis = y \<longrightarrow>
            compute_gradient_of_cost_function_multivariate hypothesis x y n =
              Inr (replicate (length (rows x)) (Finite 0)))"
proof -
  let ?e = "map2 (-) hypothesis y"
  have sub: "np_subtract hypothesis y = Inr ?e" using assms(3) by (simp add: np_subtract_def)
  have le: "length ?e = length y" using assms(3) by simp
  have mm: "matmul x ?e = Inr (map (\<lambda>r. dot r ?e) (rows x))"
    using assms(2) le by (simp add: matmul_def)
  have d: "\<forall>r\<in>set (rows x). dot r ?e = (\<Sum>i<length y. r ! i * (hypothesis ! i - y ! i))"
  proof
    fix r assume "r \<in> set (rows x)"
    then have "length r = length ?e" using assms(1,2) le by (simp add: is_matrix_def)
    from dot_sum_nth [OF this] le assms(3) show "dot r ?e = (\<Sum>i<length y. r ! i * (hypothesis ! i - y ! i))"
      by simp
  qed
  have g: "compute_gradient_of_cost_function_multivariate hypothesis x y n =
      Inr (map (\<lambda>r. Finite (dot r ?e / of_int n)) (rows x))"
    using sub mm assms(4)
    by (simp add: compute_gradient_of_cost_function_multivariate_def and_then_def
        finite_np_divide comp_def)
  have first: "compute_gradient_of_cost_function_multivariate hypothesis x y n =
           Inr (map (\<lambda>r. Finite ((\<Sum>i<length y. r ! i * (hypothesis ! i - y ! i)) / of_int n)) (rows x))"
    unfolding g using d by simp
  have second: "compute_gradient_of_cost_function_multivariate hypothesis x y n =
              Inr (replicate (length (rows x)) (Finite 0))" if "hypothesis = y"
  proof -
    have "\<forall>b\<in>set ?e. b = 0" using that by (auto simp add: set_zip)
    then have "\<forall>r\<in>set (rows x). dot r ?e = 0" using dot_zero by blast
    then have "map (\<lambda>r. Finite (dot r ?e / of_int n)) (rows x) = replicate (length (rows x)) (Finite 0)"
      by (simp add: map_replicate_const [symmetric])
    then show ?thesis unfolding g by simp
  qed
  show ?thesis using first second by blast
qed

theorem gradient_formula_witness:
  "compute_gradient_of_cost_function_multivariate [1, 0] \<lparr>ncols = 2, rows = [[1, 1], [2, 5]]\<rparr> [1, 0] 2
     = Inr [Finite 0, Finite 0]"
proof -
  let ?x = "\<lparr>ncols = 2, rows = [[1, 1], [2, 5]]\<rparr> :: real matrix"
  have a: "is_matrix ?x" by (simp add: is_matrix_def)
  have b: "ncols ?x = length [1, 0 :: real]" by simp
  have c: "length [1, 0 :: real] = length [1, 0 :: real]" by simp
  have d: "(2 :: int) \<noteq> 0" by simp
  from gradient_formula [OF a b c d] show ?thesis by (simp add: numeral_2_eq_2)
qed

text \<open>
  The claim as stated fails for the example count 0, the count \<open>gradient_descent\<close>
  passes for an empty training set: with no example the hypothesis equals the labels
  (both are empty), and each entry of the gradient is \<open>0 / 0\<close>, a \<open>nan\<close>, not zero.
\<close>

theorem gradient_formula_counterexample:
  "compute_gradient_of_cost_function_multivariate [] \<lparr>ncols = 0, rows = [[], []]\<rparr> [] 0
     = Inr [NonFinite, NonFinite]"
  by (simp add: compute_gradient_of_cost_function_multivariate_def and_then_def np_subtract_def
      matmul_def dot_def np_divide_def)

subsection \<open>Prediction\<close>




subsection \<open>Gradient descent\<close>
















subsection \<open>The confusion matrix\<close>

lemma confusion_step_in_range:
  assumes "i < length predictions" "i < length y"
  shows "confusion_step predictions y i [a, b, c, d] =
     Inr (if predictions ! i = 1 \<and> y ! i = 1 then [a + 1, b, c, d]
          else if predictions ! i = 0 \<and> y ! i = 0 then [a, b + 1, c, d]
          else if predictions ! i = 1 \<and> y ! i = 0 then [a, b, c + 1, d]
          else if predictions ! i = 0 \<and> y ! i = 1 then [a, b, c, d + 1]
          else [a, b, c, d])"
  using assms
  by (simp add: confusion_step_def and_then_def both_equal_def getitem_def increment_def)

lemma confusion_loop_counts:
  assumes "\<forall>i\<in>set is. i < length predictions \<and> i < length y"
  shows "confusion_loop predictions y is [a, b, c, d] =
     Inr [a + length (filter (\<lambda>i. predictions ! i = 1 \<and> y ! i = 1) is),
          b + length (filter (\<lambda>i. predictions ! i = 0 \<and> y ! i = 0) is),
          c + length (filter (\<lambda>i. predictions ! i = 1 \<and> y ! i = 0) is),
          d + length (filter (\<lambda>i. predictions ! i = 0 \<and> y ! i = 1) is)]"
  using assms
proof (induction "is" arbitrary: a b c d)
  case Nil
  then show ?case by simp
next
  case (Cons i "is")
  then have "i < length predictions" "i < length y" by simp_all
  then show ?case using Cons by (simp add: confusion_step_in_range)
qed

lemma four_way_count:
  fixes p q :: "nat \<Rightarrow> real"
  shows "length (filter (\<lambda>i. p i = 1 \<and> q i = 1) is) + length (filter (\<lambda>i. p i = 0 \<and> q i = 0) is)
   + length (filter (\<lambda>i. p i = 1 \<and> q i = 0) is) + length (filter (\<lambda>i. p i = 0 \<and> q i = 1) is)
   = length (filter (\<lambda>i. (p i = 0 \<or> p i = 1) \<and> (q i = 0 \<or> q i = 1)) is)"
  by (induction "is") auto

lemma filter_all_iff: "length (filter P xs) = length xs \<longleftrightarrow> (\<forall>x\<in>set xs. P x)"
  by (metis filter_id_conv length_filter_less less_irrefl_nat filter_True)

text \<open>
  Claim C10. For predictions and labels of equal length the computation returns a matrix
  whose four counts add up to the number of index positions at which both the prediction
  and the label are 0 or 1; positions holding any other value are passed over. The sum is
  the input length exactly when every value is 0 or 1.
\<close>

theorem confusion_matrix_counts_binary_positions:
  assumes "length predictions = length y"
  shows "\<exists>m. get_confusion_matrix predictions y = Inr m \<and>
     sum_list m = length (filter (\<lambda>i. (predictions ! i = 0 \<or> predictions ! i = 1) \<and> (y ! i = 0 \<or> y ! i = 1))
                     [0 ..< length predictions]) \<and>
     (sum_list m = length predictions \<longleftrightarrow>
        (\<forall>i < length predictions. (predictions ! i = 0 \<or> predictions ! i = 1) \<and> (y ! i = 0 \<or> y ! i = 1)))"
proof -
  let ?is = "[0 ..< length predictions]"
  let ?P = "\<lambda>i. (predictions ! i = 0 \<or> predictions ! i = 1) \<and> (y ! i = 0 \<or> y ! i = 1)"
  have r: "\<forall>i\<in>set ?is. i < length predictions \<and> i < length y" using assms by simp
  have s: "sum_list [0 + length (filter (\<lambda>i. predictions ! i = 1 \<and> y ! i = 1) ?is),
          0 + length (filter (\<lambda>i. predictions ! i = 0 \<and> y ! i = 0) ?is),
          0 + length (filter (\<lambda>i. predictions ! i = 1 \<and> y ! i = 0) ?is),
          0 + length (filter (\<lambda>i. predictions ! i = 0 \<and> y ! i = 1) ?is)] = length (filter ?P ?is)"
    using four_way_count [of "\<lambda>i. predictions ! i" "\<lambda>i. y ! i" ?is] by simp
  have t: "length (filter ?P ?is) = length predictions \<longleftrightarrow> (\<forall>i < length predictions. ?P i)"
    using filter_all_iff [of ?P ?is] by auto
  show ?thesis
    unfolding get_confusion_matrix_def confusion_loop_counts [OF r] using s t by simp
qed

theorem confusion_matrix_counts_binary_positions_witness:
  "length [1, 0, 1, 0, 2 :: real] = length [1, 0, 0, 1, 1 :: real] \<and>
   (\<exists>m. get_confusion_matrix [1, 0, 1, 0, 2] [1, 0, 0, 1, 1] = Inr m \<and> sum_list m = 4)"
  using confusion_matrix_counts_binary_positions [of "[1, 0, 1, 0, 2]" "[1, 0, 0, 1, 1]"]
  by (auto simp add: upt_rec)

lemma confusion_step_beyond:
  assumes "i < length predictions" "length y \<le> i"
  shows "confusion_step predictions y i m =
     (if predictions ! i = 1 \<or> predictions ! i = 0 then Inl IndexError else Inr m)"
  using assms by (simp add: confusion_step_def and_then_def both_equal_def getitem_def)

lemma confusion_step_cases:
  assumes "i < length predictions"
  shows "confusion_step predictions y i m = Inl IndexError \<and> length y \<le> i \<and> (predictions ! i = 0 \<or> predictions ! i = 1)
    \<or> (\<exists>m'. confusion_step predictions y i m = Inr m' \<and> \<not> (length y \<le> i \<and> (predictions ! i = 0 \<or> predictions ! i = 1)))"
proof (cases "i < length y")
  case True
  then show ?thesis using assms
    by (simp add: confusion_step_def and_then_def both_equal_def getitem_def)
next
  case False
  then show ?thesis using assms confusion_step_beyond [of i predictions y m] by auto
qed

lemma confusion_loop_raises_iff:
  assumes "\<forall>i\<in>set is. i < length predictions"
  shows "(confusion_loop predictions y is m = Inl IndexError \<and>
            (\<exists>i\<in>set is. length y \<le> i \<and> (predictions ! i = 0 \<or> predictions ! i = 1)))
       \<or> ((\<exists>m'. confusion_loop predictions y is m = Inr m') \<and>
            \<not> (\<exists>i\<in>set is. length y \<le> i \<and> (predictions ! i = 0 \<or> predictions ! i = 1)))"
  using assms
proof (induction "is" arbitrary: m)
  case Nil
  then show ?case by simp
next
  case (Cons i "is")
  then have i: "i < length predictions" by simp
  let ?beyond = "length y \<le> i \<and> (predictions ! i = 0 \<or> predictions ! i = 1)"
  from confusion_step_cases [OF i, of y m]
  consider (raises) "confusion_step predictions y i m = Inl IndexError" "?beyond"
    | (steps) m' where "confusion_step predictions y i m = Inr m'" "\<not> ?beyond"
    by blast
  then show ?case
  proof cases
    case raises
    then show ?thesis by auto
  next
    case steps
    from Cons have "\<forall>i\<in>set is. i < length predictions" by simp
    from Cons.IH [OF this, of m'] steps show ?thesis by auto
  qed
qed

lemma confusion_loop_take:
  assumes "\<forall>i\<in>set is. i < k"
  shows "confusion_loop predictions (take k y) is m = confusion_loop predictions y is m"
  using assms
proof (induction "is" arbitrary: m)
  case Nil
  then show ?case by simp
next
  case (Cons i "is")
  then have "i < k" by simp
  then have "confusion_step predictions (take k y) i m = confusion_step predictions y i m"
    by (simp add: confusion_step_def and_then_def both_equal_def getitem_def)
  with Cons show ?case by (simp split: sum.splits)
qed

text \<open>
  Claim C2, as amended. The computation does not compare the two lengths. It raises
  \<open>IndexError\<close> exactly when some index from \<open>len(y)\<close> on, below \<open>len(predictions)\<close>,
  holds a prediction equal to 0 or 1; in every other case it returns a matrix. Labels
  from index \<open>len(predictions)\<close> on are never read: the result is that for the labels
  cut to the length of the predictions.
\<close>

theorem confusion_matrix_unequal_lengths:
  "(get_confusion_matrix predictions y = Inl IndexError \<longleftrightarrow>
      (\<exists>i. length y \<le> i \<and> i < length predictions \<and> (predictions ! i = 0 \<or> predictions ! i = 1))) \<and>
   (get_confusion_matrix predictions y = Inl IndexError \<or>
      (\<exists>m. get_confusion_matrix predictions y = Inr m)) \<and>
   get_confusion_matrix predictions (take (length predictions) y) = get_confusion_matrix predictions y"
proof -
  let ?is = "[0 ..< length predictions]"
  have r: "\<forall>i\<in>set ?is. i < length predictions" by simp
  note d = confusion_loop_raises_iff [OF r, of y "[0, 0, 0, 0]"]
  have b: "get_confusion_matrix predictions (take (length predictions) y) = get_confusion_matrix predictions y"
    unfolding get_confusion_matrix_def by (rule confusion_loop_take) simp
  have c: "get_confusion_matrix predictions y = Inl IndexError \<longleftrightarrow>
        (\<exists>i. length y \<le> i \<and> i < length predictions \<and> (predictions ! i = 0 \<or> predictions ! i = 1))"
    using d unfolding get_confusion_matrix_def by auto
  have e: "get_confusion_matrix predictions y = Inl IndexError \<or> (\<exists>m. get_confusion_matrix predictions y = Inr m)"
    using d unfolding get_confusion_matrix_def by auto
  show ?thesis using b c e by simp
qed

theorem confusion_matrix_unequal_lengths_witness:
  "get_confusion_matrix [0, 1] [0] = Inl IndexError \<and>
   get_confusion_matrix [0, 2] (take 2 [0, 1, 1]) = get_confusion_matrix [0, 2] [0, 1, 1]"
proof -
  have "\<exists>i. length [0::real] \<le> i \<and> i < length [0, 1::real] \<and> ([0, 1::real] ! i = 0 \<or> [0, 1::real] ! i = 1)"
    by (rule exI [of _ 1]) simp
  then have "get_confusion_matrix [0, 1] [0] = Inl IndexError"
    using confusion_matrix_unequal_lengths [of "[0, 1]" "[0]"] by blast
  moreover have "get_confusion_matrix [0, 2] (take 2 [0, 1, 1]) = get_confusion_matrix [0, 2] [0, 1, 1]"
    using confusion_matrix_unequal_lengths [of "[0, 2]" "[0, 1, 1]"] by simp
  ultimately show ?thesis by simp
qed

text \<open>
  The claim as stated fails: two labels against one prediction give a matrix, not an
  error; the second label is ignored.
\<close>

theorem confusion_matrix_longer_labels_accepted:
  "get_confusion_matrix [1] [1, 0] = Inr [1, 0, 0, 0]"
  by (simp add: get_confusion_matrix_def confusion_step_def and_then_def both_equal_def
      getitem_def increment_def)

subsection \<open>The performance metrics\<close>

text \<open>
  Claim C1, as amended. For every confusion matrix in which the denominator of a metric
  is zero (all four counts zero; no positive prediction; no actual positive; no actual
  negative; or precision and recall both zero), the computation raises
  \<open>ZeroDivisionError\<close> and reports no metric.
\<close>

theorem metrics_zero_denominator_raises:
  assumes "tp + tn + fp + fn = 0 \<or> tp + fp = 0 \<or> tp + fn = 0 \<or> tn + fp = 0
           \<or> real tp / real (tp + fp) + real tp / real (tp + fn) = 0"
  shows "print_performance_metrics [tp, tn, fp, fn] = Inl ZeroDivisionError"
  using assms
  by (auto simp add: print_performance_metrics_def and_then_def getitem_def true_divide_def)

theorem metrics_zero_denominator_raises_witness:
  "(3::nat) + 0 + 0 + 2 \<noteq> 0 \<and> (0::nat) + 0 = 0 \<and>
   print_performance_metrics [3, 0, 0, 2] = Inl ZeroDivisionError"
  using metrics_zero_denominator_raises [of 3 0 0 2] by simp

text \<open>
  The claim as stated fails: with no positive prediction (\<open>tp + fp = 0\<close>) the
  computation ends in the exception, it does not report a non-finite precision.
\<close>

theorem metrics_no_positive_prediction_raises:
  "print_performance_metrics [0, 1, 0, 1] = Inl ZeroDivisionError"
  by (simp add: print_performance_metrics_def and_then_def getitem_def true_divide_def)

end
